theory Spec2Isabelle
  imports Complex_Main "HOL-Library.Sublist"
begin

section \<open>Python values, dictionaries and errors\<close>

text \<open>
  The script \<^verbatim>\<open>examples/offline_inference/batch_llm_inference.py\<close> only builds and
  reads dictionaries. A dictionary is an association list in insertion order, read with
  \<^const>\<open>map_of\<close>; its keys are strings, as column names and keyword arguments are.
  A float is the number its literal denotes: the script writes the literal \<^verbatim>\<open>0.3\<close>
  and computes nothing with it.
\<close>

datatype pyval =
    PNone
  | PBool bool
  | PInt int
  | PFloat real
  | PStr string
  | PList "pyval list"
  | PDict "(string \<times> pyval) list"

type_synonym row = "(string \<times> pyval) list"

text \<open>
  \<open>KeyError k\<close>: the subscript \<^verbatim>\<open>d[k]\<close> on a dictionary without \<open>k\<close>.
  \<open>TypeError k\<close>: \<^verbatim>\<open>dict() got multiple values for keyword argument k\<close>.
  \<open>AssertionError m\<close>: a failed \<^verbatim>\<open>assert\<close> with message \<open>m\<close>.
  \<open>NameError x\<close>: a read of the module variable \<open>x\<close> before it is bound.
  \<open>ImportError m\<close>: an \<^verbatim>\<open>import\<close> that fails, with its message (a missing module
  raises the subclass \<^verbatim>\<open>ModuleNotFoundError\<close>).
  \<open>InvalidVersion\<close>: \<^verbatim>\<open>Version(s)\<close> on a string that is not a version.
  \<open>IndexTypeError\<close>: the \<^verbatim>\<open>TypeError\<close> of a string subscript on a list.
  \<open>External m\<close>: a fault raised inside a call into Ray Data.
\<close>

datatype error =
    AssertionError string
  | KeyError string
  | TypeError string
  | NameError string
  | ImportError string
  | InvalidVersion
  | IndexTypeError
  | External string

text \<open>\<^verbatim>\<open>d[k]\<close>\<close>

definition getitem :: "row \<Rightarrow> string \<Rightarrow> error + pyval" where
  "getitem d k = (case map_of d k of None \<Rightarrow> Inl (KeyError k) | Some v \<Rightarrow> Inr v)"

text \<open>
  \<^verbatim>\<open>dict(k1=v1, ..., **d)\<close>: the explicit keywords \<open>kw\<close> come first, then the items of
  the unpacked mapping \<open>d\<close>; a key of \<open>d\<close> that is already an explicit keyword raises
  a \<open>TypeError\<close>, it does not override.
\<close>

definition dict_kwargs :: "row \<Rightarrow> row \<Rightarrow> error + row" where
  "dict_kwargs kw d =
     (case find (\<lambda>k. k \<in> set (map fst kw)) (map fst d) of
        Some k \<Rightarrow> Inl (TypeError k)
      | None \<Rightarrow> Inr (kw @ d))"

section \<open>The two callbacks\<close>

text \<open>The dictionary literal \<^verbatim>\<open>{"role": r, "content": c}\<close>.\<close>

definition message :: "string \<Rightarrow> pyval \<Rightarrow> pyval" where
  "message r c = PDict [(''role'', PStr r), (''content'', c)]"

text \<open>
  \<^verbatim>\<open>
  preprocess=lambda row: dict(
      messages=[
          {"role": "system", "content": "You are a bot that responds with haikus."},
          {"role": "user", "content": row["text"]},
      ],
      sampling_params=dict(temperature=0.3, max_tokens=250),
  )\<close>
\<close>

definition preprocess :: "row \<Rightarrow> error + row" where
  "preprocess row =
     (case getitem row ''text'' of
        Inl e \<Rightarrow> Inl e
      | Inr t \<Rightarrow>
          Inr [(''messages'',
                  PList [message ''system'' (PStr ''You are a bot that responds with haikus.''),
                         message ''user'' t]),
               (''sampling_params'',
                  PDict [(''temperature'', PFloat 0.3), (''max_tokens'', PInt 250)])])"

text \<open>
  \<^verbatim>\<open>
  postprocess=lambda row: dict(
      answer=row["generated_text"],
      **row,
  )\<close>
  The keyword's value is evaluated first, so a missing \<^verbatim>\<open>generated_text\<close> raises its
  \<open>KeyError\<close> before the merge is attempted.
\<close>

definition postprocess :: "row \<Rightarrow> error + row" where
  "postprocess row =
     (case getitem row ''generated_text'' of
        Inl e \<Rightarrow> Inl e
      | Inr g \<Rightarrow> dict_kwargs [(''answer'', g)] row)"

section \<open>The callbacks on objects\<close>

text \<open>
  What the interpreter does when it runs \<^verbatim>\<open>preprocess\<close>: lists and dictionaries are
  objects with an identity, held in a heap that every piece of code of the worker can
  write to; a list display or a call of \<^verbatim>\<open>dict\<close> allocates a new object, a subscript
  reads one. A cell of an object is an immutable value or a reference to an object.
  Addresses below \<open>fresh\<close> are allocated.
\<close>

datatype cell = Val pyval | Ref nat

datatype obj = OList "cell list" | ODict "(string \<times> cell) list"

record heap =
  objs :: "nat \<Rightarrow> obj"
  fresh :: nat

definition alloc :: "obj \<Rightarrow> heap \<Rightarrow> nat \<times> heap" where
  "alloc ob h = (fresh h, h\<lparr>objs := (objs h)(fresh h := ob), fresh := Suc (fresh h)\<rparr>)"

text \<open>\<^verbatim>\<open>x[k]\<close> for the object \<open>x\<close> at address \<open>a\<close> and a string \<open>k\<close>.\<close>

definition subscript :: "heap \<Rightarrow> nat \<Rightarrow> string \<Rightarrow> error + cell" where
  "subscript h a k =
     (case objs h a of
        ODict kvs \<Rightarrow> (case map_of kvs k of None \<Rightarrow> Inl (KeyError k) | Some c \<Rightarrow> Inr c)
      | OList cs \<Rightarrow> Inl IndexTypeError)"

text \<open>
  The body of the \<^verbatim>\<open>preprocess\<close> lambda, in evaluation order, for the row object at
  address \<open>row\<close>: the system message, the subscript \<^verbatim>\<open>row["text"]\<close>, the user message,
  the list of the two, the sampling parameters, and the dictionary that is returned.
  The content of the user message is the very cell the row holds.
\<close>

definition preprocess_obj :: "heap \<Rightarrow> nat \<Rightarrow> (error + cell) \<times> heap" where
  "preprocess_obj h row =
     (let (sys, h1) =
            alloc (ODict [(''role'', Val (PStr ''system'')),
                          (''content'', Val (PStr ''You are a bot that responds with haikus.''))]) h
      in case subscript h1 row ''text'' of
           Inl e \<Rightarrow> (Inl e, h1)
         | Inr t \<Rightarrow>
             (let (usr, h2) = alloc (ODict [(''role'', Val (PStr ''user'')), (''content'', t)]) h1;
                  (msgs, h3) = alloc (OList [Ref sys, Ref usr]) h2;
                  (sp, h4) =
                    alloc (ODict [(''temperature'', Val (PFloat 0.3)),
                                  (''max_tokens'', Val (PInt 250))]) h3;
                  (req, h5) =
                    alloc (ODict [(''messages'', Ref msgs), (''sampling_params'', Ref sp)]) h4
              in (Inr (Ref req), h5)))"

text \<open>
  The value an object graph stands for, read to depth \<open>n\<close>: \<open>None\<close> when the graph is
  deeper (or cyclic) or leaves the allocated part of the heap. Two cells, in one heap or
  in two, are structurally identical when they stand for the same value.
\<close>

fun reify :: "nat \<Rightarrow> heap \<Rightarrow> cell \<Rightarrow> pyval option" where
  "reify n h (Val v) = Some v"
| "reify 0 h (Ref a) = None"
| "reify (Suc n) h (Ref a) =
     (if a < fresh h then
        (case objs h a of
           OList cs \<Rightarrow> map_option PList (those (map (reify n h) cs))
         | ODict kvs \<Rightarrow>
             map_option PDict
               (those (map (\<lambda>(k, c). map_option (Pair k) (reify n h c)) kvs)))
      else None)"

section \<open>The script\<close>

subsection \<open>The collaborators\<close>

text \<open>
  \<^verbatim>\<open>packaging.version.Version\<close> is a library of its own. A version is what it parses
  a version string into (\<^verbatim>\<open>"2.44.1rc1"\<close> has release \<open>[2, 44, 1]\<close> and pre-release
  \<open>(Candidate, 1)\<close>), and versions are ordered by the key the library compares: the
  epoch, the release without its trailing zeros, then the pre-release, post-release,
  development and local segments, an absent segment standing for the infinity that
  puts \<^verbatim>\<open>1.0.dev0 < 1.0a0 < 1.0 < 1.0.post0\<close> and \<^verbatim>\<open>1.0 < 1.0+local\<close>.
\<close>

datatype ordering = LT | EQ | GT

definition then_cmp :: "ordering \<Rightarrow> ordering \<Rightarrow> ordering" where
  "then_cmp a b = (case a of EQ \<Rightarrow> b | _ \<Rightarrow> a)"

definition cmp_nat :: "nat \<Rightarrow> nat \<Rightarrow> ordering" where
  "cmp_nat a b = (if a < b then LT else if a = b then EQ else GT)"

text \<open>Tuples compare position by position; a proper prefix is the smaller one.\<close>

fun cmp_list :: "('a \<Rightarrow> 'a \<Rightarrow> ordering) \<Rightarrow> 'a list \<Rightarrow> 'a list \<Rightarrow> ordering" where
  "cmp_list c [] [] = EQ"
| "cmp_list c [] (y # ys) = LT"
| "cmp_list c (x # xs) [] = GT"
| "cmp_list c (x # xs) (y # ys) = then_cmp (c x y) (cmp_list c xs ys)"

datatype 'a ext = NegInf | Fin 'a | PosInf

fun cmp_ext :: "('a \<Rightarrow> 'a \<Rightarrow> ordering) \<Rightarrow> 'a ext \<Rightarrow> 'a ext \<Rightarrow> ordering" where
  "cmp_ext c NegInf NegInf = EQ"
| "cmp_ext c NegInf y = LT"
| "cmp_ext c (Fin x) NegInf = GT"
| "cmp_ext c (Fin x) (Fin y) = c x y"
| "cmp_ext c (Fin x) PosInf = LT"
| "cmp_ext c PosInf PosInf = EQ"
| "cmp_ext c PosInf y = GT"

text \<open>The pre-release letters \<^verbatim>\<open>a\<close>, \<^verbatim>\<open>b\<close> and \<^verbatim>\<open>rc\<close>, in the order of these strings.\<close>

datatype pre_tag = Alpha | Beta | Candidate

fun tag_rank :: "pre_tag \<Rightarrow> nat" where
  "tag_rank Alpha = 0"
| "tag_rank Beta = 1"
| "tag_rank Candidate = 2"

definition cmp_pre :: "pre_tag \<times> nat \<Rightarrow> pre_tag \<times> nat \<Rightarrow> ordering" where
  "cmp_pre p q =
     then_cmp (cmp_nat (tag_rank (fst p)) (tag_rank (fst q))) (cmp_nat (snd p) (snd q))"

text \<open>
  A part of a local version: numeric parts compare as numbers, alphanumeric parts as
  strings, and an alphanumeric part comes before a numeric one.
\<close>

datatype local_part = Numeric nat | Alphanumeric string

fun cmp_local :: "local_part \<Rightarrow> local_part \<Rightarrow> ordering" where
  "cmp_local (Numeric i) (Numeric j) = cmp_nat i j"
| "cmp_local (Numeric i) (Alphanumeric t) = GT"
| "cmp_local (Alphanumeric s) (Numeric j) = LT"
| "cmp_local (Alphanumeric s) (Alphanumeric t) =
     cmp_list cmp_nat (map of_char s) (map of_char t)"

record version =
  epoch :: nat
  release :: "nat list"
  pre_release :: "(pre_tag \<times> nat) option"
  post_release :: "nat option"
  dev_release :: "nat option"
  local_version :: "local_part list option"

definition strip_zeros :: "nat list \<Rightarrow> nat list" where
  "strip_zeros r = rev (dropWhile (\<lambda>x. x = 0) (rev r))"

definition pre_key :: "version \<Rightarrow> (pre_tag \<times> nat) ext" where
  "pre_key v =
     (if pre_release v = None \<and> post_release v = None \<and> dev_release v \<noteq> None then NegInf
      else case pre_release v of None \<Rightarrow> PosInf | Some p \<Rightarrow> Fin p)"

definition post_key :: "version \<Rightarrow> nat ext" where
  "post_key v = (case post_release v of None \<Rightarrow> NegInf | Some n \<Rightarrow> Fin n)"

definition dev_key :: "version \<Rightarrow> nat ext" where
  "dev_key v = (case dev_release v of None \<Rightarrow> PosInf | Some n \<Rightarrow> Fin n)"

definition local_key :: "version \<Rightarrow> local_part list ext" where
  "local_key v = (case local_version v of None \<Rightarrow> NegInf | Some l \<Rightarrow> Fin l)"

definition cmp_version :: "version \<Rightarrow> version \<Rightarrow> ordering" where
  "cmp_version v w =
     then_cmp (cmp_nat (epoch v) (epoch w))
    (then_cmp (cmp_list cmp_nat (strip_zeros (release v)) (strip_zeros (release w)))
    (then_cmp (cmp_ext cmp_pre (pre_key v) (pre_key w))
    (then_cmp (cmp_ext cmp_nat (post_key v) (post_key w))
    (then_cmp (cmp_ext cmp_nat (dev_key v) (dev_key w))
              (cmp_ext (cmp_list cmp_local) (local_key v) (local_key w))))))"

text \<open>\<^verbatim>\<open>v >= w\<close>\<close>

definition version_ge :: "version \<Rightarrow> version \<Rightarrow> bool" where
  "version_ge v w = (cmp_version v w \<noteq> LT)"

text \<open>A final release: nothing but the release segment, as in \<^verbatim>\<open>"2.44.1"\<close>.\<close>

definition final :: "nat list \<Rightarrow> version" where
  "final r =
     \<lparr>epoch = 0, release = r, pre_release = None, post_release = None, dev_release = None,
      local_version = None\<rparr>"

text \<open>
  The value \<^verbatim>\<open>vLLMEngineProcessorConfig(...)\<close> holds: the four keyword arguments the
  script passes. Building it from the constants of the source is taken to succeed.
\<close>

record engine_config =
  model_source :: string
  engine_kwargs :: row
  concurrency :: int
  batch_size :: int

type_synonym callback = "row \<Rightarrow> error + row"

text \<open>
  The installation as the script meets it. \<open>importable m names\<close> is the message of the
  error that importing \<open>names\<close> from module \<open>m\<close> raises, if it raises;
  \<open>ray_version\<close> is what \<^verbatim>\<open>Version(ray.__version__)\<close> gives, \<open>None\<close> when the string
  does not parse. The calls into Ray return their result or the message of the fault
  they raise. \<open>'d\<close> is the type of datasets, \<open>'p\<close> of processors.

  \<^verbatim>\<open>build_llm_processor\<close> is handed the configuration object itself, not a copy, and
  the processor it returns may keep it: the call returns the state it leaves the object
  in, and the later calls on the processor and on the dataset it produced return what
  they do to the object.
\<close>

record ('d, 'p) runtime =
  importable :: "string \<Rightarrow> string list \<Rightarrow> string option"
  ray_version :: "version option"
  read_text :: "string \<Rightarrow> string + 'd"
  schema :: "'d \<Rightarrow> string + string"
  count_rows :: "'d \<Rightarrow> string + nat"
  build_llm_processor ::
    "engine_config \<Rightarrow> callback \<Rightarrow> callback \<Rightarrow> (string + 'p) \<times> engine_config"
  call_processor :: "'p \<Rightarrow> 'd \<Rightarrow> (string + 'd) \<times> (engine_config \<Rightarrow> engine_config)"
  take_rows :: "'d \<Rightarrow> nat \<Rightarrow> (string + row list) \<times> (engine_config \<Rightarrow> engine_config)"

subsection \<open>Module variables and what the script does to the outside\<close>

datatype event =
    Read_text string
  | Schema
  | Count
  | Construct_config engine_config
  | Build_processor engine_config
  | Call_processor
  | Take nat
  | Print_schema string
  | Print_size nat
  | Print_prompt pyval
  | Print_generated_text pyval

text \<open>
  The module's variables (\<^verbatim>\<open>size\<close> is \<open>size_v\<close>), unbound at the start, and the calls
  and prints made so far, oldest first. A call is logged when it is made, whether or
  not it returns. \<open>config\<close> holds the state of the object the variable is bound to. The
  names the imports bind are not variables the script assigns and are left out.
\<close>

record ('d, 'p) store =
  ds :: "'d option"
  size_v :: "nat option"
  config :: "engine_config option"
  vllm_processor :: "'p option"
  outputs :: "row list option"
  events :: "event list"

definition init_store :: "('d, 'p) store" where
  "init_store =
     \<lparr>ds = None, size_v = None, config = None, vllm_processor = None, outputs = None,
      events = []\<rparr>"

definition emit :: "event \<Rightarrow> ('d, 'p) store \<Rightarrow> ('d, 'p) store" where
  "emit e s = s\<lparr>events := events s @ [e]\<rparr>"

text \<open>A statement either completes (\<open>None\<close>) or raises; both leave a store behind.\<close>

type_synonym ('d, 'p) stmt = "('d, 'p) store \<Rightarrow> error option \<times> ('d, 'p) store"

subsection \<open>The statements, in source order\<close>

text \<open>
  \<^verbatim>\<open>
  import ray
  from packaging.version import Version
  from ray.data.llm import build_llm_processor, vLLMEngineProcessorConfig\<close>
\<close>

definition import_from :: "('d, 'p) runtime \<Rightarrow> string \<Rightarrow> string list \<Rightarrow> ('d, 'p) stmt" where
  "import_from rt m names s =
     (case importable rt m names of
        Some msg \<Rightarrow> (Some (ImportError msg), s)
      | None \<Rightarrow> (None, s))"

definition imports_resolve :: "('d, 'p) runtime \<Rightarrow> bool" where
  "imports_resolve rt \<longleftrightarrow>
     importable rt ''ray'' [] = None \<and>
     importable rt ''packaging.version'' [''Version''] = None \<and>
     importable rt ''ray.data.llm'' [''build_llm_processor'', ''vLLMEngineProcessorConfig''] =
       None"

text \<open>
  \<^verbatim>\<open>
  assert Version(ray.__version__) >= Version("2.44.1"), (
      "Ray version must be at least 2.44.1"
  )\<close>
  Assertions are enabled (the interpreter does not run with \<^verbatim>\<open>-O\<close>).
\<close>

definition min_version :: version where
  "min_version = final [2, 44, 1]"

definition assert_version :: "('d, 'p) runtime \<Rightarrow> ('d, 'p) stmt" where
  "assert_version rt s =
     (case ray_version rt of
        None \<Rightarrow> (Some InvalidVersion, s)
      | Some v \<Rightarrow>
          (if version_ge v min_version then (None, s)
           else (Some (AssertionError ''Ray version must be at least 2.44.1''), s)))"

text \<open>\<^verbatim>\<open>ds = ray.data.read_text("s3://anonymous@air-example-data/prompts.txt")\<close>\<close>

definition load :: "('d, 'p) runtime \<Rightarrow> ('d, 'p) stmt" where
  "load rt s =
     (let s1 = emit (Read_text ''s3://anonymous@air-example-data/prompts.txt'') s in
      case read_text rt ''s3://anonymous@air-example-data/prompts.txt'' of
        Inl m \<Rightarrow> (Some (External m), s1)
      | Inr d \<Rightarrow> (None, s1\<lparr>ds := Some d\<rparr>))"

text \<open>\<^verbatim>\<open>print(ds.schema())\<close>\<close>

definition print_schema :: "('d, 'p) runtime \<Rightarrow> ('d, 'p) stmt" where
  "print_schema rt s =
     (case ds s of
        None \<Rightarrow> (Some (NameError ''ds''), s)
      | Some d \<Rightarrow>
          (let s1 = emit Schema s in
           case schema rt d of
             Inl m \<Rightarrow> (Some (External m), s1)
           | Inr sch \<Rightarrow> (None, emit (Print_schema sch) s1)))"

text \<open>\<^verbatim>\<open>size = ds.count()\<close>\<close>

definition count_size :: "('d, 'p) runtime \<Rightarrow> ('d, 'p) stmt" where
  "count_size rt s =
     (case ds s of
        None \<Rightarrow> (Some (NameError ''ds''), s)
      | Some d \<Rightarrow>
          (let s1 = emit Count s in
           case count_rows rt d of
             Inl m \<Rightarrow> (Some (External m), s1)
           | Inr n \<Rightarrow> (None, s1\<lparr>size_v := Some n\<rparr>)))"

text \<open>\<^verbatim>\<open>print(f"Size of dataset: {size} prompts")\<close>\<close>

definition print_size :: "('d, 'p) stmt" where
  "print_size s =
     (case size_v s of
        None \<Rightarrow> (Some (NameError ''size''), s)
      | Some n \<Rightarrow> (None, emit (Print_size n) s))"

text \<open>
  \<^verbatim>\<open>
  config = vLLMEngineProcessorConfig(
      model_source="unsloth/Llama-3.1-8B-Instruct",
      engine_kwargs={
          "enable_chunked_prefill": True,
          "max_num_batched_tokens": 4096,
          "max_model_len": 16384,
      },
      concurrency=1,
      batch_size=64,
  )\<close>
\<close>

definition the_config :: engine_config where
  "the_config =
     \<lparr>model_source = ''unsloth/Llama-3.1-8B-Instruct'',
      engine_kwargs =
        [(''enable_chunked_prefill'', PBool True),
         (''max_num_batched_tokens'', PInt 4096),
         (''max_model_len'', PInt 16384)],
      concurrency = 1,
      batch_size = 64\<rparr>"

definition configure :: "('d, 'p) stmt" where
  "configure s = (None, (emit (Construct_config the_config) s)\<lparr>config := Some the_config\<rparr>)"

text \<open>\<^verbatim>\<open>vllm_processor = build_llm_processor(config, preprocess=..., postprocess=...)\<close>\<close>

definition build :: "('d, 'p) runtime \<Rightarrow> ('d, 'p) stmt" where
  "build rt s =
     (case config s of
        None \<Rightarrow> (Some (NameError ''config''), s)
      | Some c \<Rightarrow>
          (let s1 = emit (Build_processor c) s in
           case build_llm_processor rt c preprocess postprocess of
             (Inl m, c') \<Rightarrow> (Some (External m), s1\<lparr>config := Some c'\<rparr>)
           | (Inr p, c') \<Rightarrow> (None, s1\<lparr>config := Some c', vllm_processor := Some p\<rparr>)))"

text \<open>\<^verbatim>\<open>ds = vllm_processor(ds)\<close>\<close>

definition process :: "('d, 'p) runtime \<Rightarrow> ('d, 'p) stmt" where
  "process rt s =
     (case vllm_processor s of
        None \<Rightarrow> (Some (NameError ''vllm_processor''), s)
      | Some p \<Rightarrow>
          (case ds s of
             None \<Rightarrow> (Some (NameError ''ds''), s)
           | Some d \<Rightarrow>
               (let s1 = emit Call_processor s in
                case call_processor rt p d of
                  (Inl m, f) \<Rightarrow> (Some (External m), s1\<lparr>config := map_option f (config s1)\<rparr>)
                | (Inr d', f) \<Rightarrow>
                    (None, s1\<lparr>config := map_option f (config s1), ds := Some d'\<rparr>))))"

text \<open>\<^verbatim>\<open>outputs = ds.take(limit=10)\<close>\<close>

definition limit :: nat where
  "limit = 10"

definition peek :: "('d, 'p) runtime \<Rightarrow> ('d, 'p) stmt" where
  "peek rt s =
     (case ds s of
        None \<Rightarrow> (Some (NameError ''ds''), s)
      | Some d \<Rightarrow>
          (let s1 = emit (Take limit) s in
           case take_rows rt d limit of
             (Inl m, f) \<Rightarrow> (Some (External m), s1\<lparr>config := map_option f (config s1)\<rparr>)
           | (Inr rows, f) \<Rightarrow>
               (None, s1\<lparr>config := map_option f (config s1), outputs := Some rows\<rparr>)))"

text \<open>
  \<^verbatim>\<open>
  for output in outputs:
      prompt = output["prompt"]
      generated_text = output["generated_text"]
      print(f"Prompt: {prompt!r}")
      print(f"Generated text: {generated_text!r}")\<close>
  The loop's own variables are passed along by the recursion.
\<close>

fun print_loop :: "row list \<Rightarrow> ('d, 'p) stmt" where
  "print_loop [] s = (None, s)"
| "print_loop (output # rest) s =
     (case getitem output ''prompt'' of
        Inl e \<Rightarrow> (Some e, s)
      | Inr prompt \<Rightarrow>
          (case getitem output ''generated_text'' of
             Inl e \<Rightarrow> (Some e, s)
           | Inr generated_text \<Rightarrow>
               print_loop rest
                 (emit (Print_generated_text generated_text) (emit (Print_prompt prompt) s))))"

definition print_outputs :: "('d, 'p) stmt" where
  "print_outputs s =
     (case outputs s of
        None \<Rightarrow> (Some (NameError ''outputs''), s)
      | Some rows \<Rightarrow> print_loop rows s)"

subsection \<open>Running the module\<close>

definition script :: "('d, 'p) runtime \<Rightarrow> ('d, 'p) stmt list" where
  "script rt =
     [import_from rt ''ray'' [],
      import_from rt ''packaging.version'' [''Version''],
      import_from rt ''ray.data.llm'' [''build_llm_processor'', ''vLLMEngineProcessorConfig''],
      assert_version rt, load rt, print_schema rt, count_size rt, print_size, configure,
      build rt, process rt, peek rt, print_outputs]"

text \<open>
  Statements run one after the other; the first one that raises ends the run, as an
  uncaught exception ends the interpreter.
\<close>

fun exec :: "('d, 'p) stmt list \<Rightarrow> ('d, 'p) stmt" where
  "exec [] s = (None, s)"
| "exec (c # cs) s = (case c s of (Some e, s') \<Rightarrow> (Some e, s') | (None, s') \<Rightarrow> exec cs s')"

definition run :: "('d, 'p) runtime \<Rightarrow> error option \<times> ('d, 'p) store" where
  "run rt = exec (script rt) init_store"

text \<open>
  The stores the run passes through: the one it starts from, the one after each
  statement that completes, and the one a raising statement leaves behind.
\<close>

fun stores :: "('d, 'p) stmt list \<Rightarrow> ('d, 'p) store \<Rightarrow> ('d, 'p) store list" where
  "stores [] s = [s]"
| "stores (c # cs) s =
     s # (case c s of (Some e, s') \<Rightarrow> [s'] | (None, s') \<Rightarrow> stores cs s')"

text \<open>
  What a run, or the list of its stores, goes on with after a statement has left the
  outcome \<open>p\<close>: nothing more when it raised, the rest \<open>k\<close> when it completed.
\<close>

definition and_then ::
  "error option \<times> ('d, 'p) store \<Rightarrow> ('d, 'p) stmt \<Rightarrow> error option \<times> ('d, 'p) store" where
  "and_then p k = (case p of (Some e, s') \<Rightarrow> (Some e, s') | (None, s') \<Rightarrow> k s')"

definition stores_after ::
  "error option \<times> ('d, 'p) store \<Rightarrow> (('d, 'p) store \<Rightarrow> ('d, 'p) store list) \<Rightarrow>
   ('d, 'p) store list" where
  "stores_after p k = (case p of (Some e, s') \<Rightarrow> [s'] | (None, s') \<Rightarrow> k s')"

subsection \<open>Reading the log\<close>

text \<open>
  The stages of the run, and the call that marks each. The schema query and the prints
  are inspection output of the stage they follow, not stages.
\<close>

datatype stage = Load | Count_rows | Configure | Build | Apply | Consume

fun stage_of :: "event \<Rightarrow> stage option" where
  "stage_of (Read_text _) = Some Load"
| "stage_of Count = Some Count_rows"
| "stage_of (Construct_config _) = Some Configure"
| "stage_of (Build_processor _) = Some Build"
| "stage_of Call_processor = Some Apply"
| "stage_of (Take _) = Some Consume"
| "stage_of _ = None"

fun stages :: "event list \<Rightarrow> stage list" where
  "stages [] = []"
| "stages (e # es) = (case stage_of e of None \<Rightarrow> stages es | Some st \<Rightarrow> st # stages es)"


fun is_construct :: "event \<Rightarrow> bool" where
  "is_construct (Construct_config _) = True"
| "is_construct _ = False"

text \<open>
  Modelled from the spec: which calls into the dataset runtime block the caller. Ray
  Data is not part of the repository; the spec (section 5) names forcing a count over
  the full dataset and materializing a bounded prefix of results, and calls every other
  operation declarative.
\<close>

fun blocking :: "event \<Rightarrow> bool" where
  "blocking Count = True"
| "blocking (Take _) = True"
| "blocking _ = False"

text \<open>
  The calls into Ray that are handed the configuration object, or hold it through the
  processor, leave it as they found it.
\<close>

definition calls_keep_config :: "('d, 'p) runtime \<Rightarrow> bool" where
  "calls_keep_config rt \<longleftrightarrow>
     snd (build_llm_processor rt the_config preprocess postprocess) = the_config \<and>
     (\<forall>p d c. snd (call_processor rt p d) c = c) \<and>
     (\<forall>d n c. snd (take_rows rt d n) c = c)"

section \<open>The bounded peek of a lazy sequence\<close>

text \<open>
  Modelled from the spec: the lazy output sequence and its bounded peek (section 4.4
  and the glossary); \<^verbatim>\<open>Dataset.take\<close> of Ray Data is not part of the repository. A lazy
  sequence is single-pass and computed on demand: a producer state and a step that
  either yields the next record with the producer's next state, or ends. The peek
  pulls until it holds \<open>n\<close> records or the producer ends, and hands back the records
  with the producer where it stopped.
\<close>

type_synonym ('s, 'a) producer = "'s \<Rightarrow> ('a \<times> 's) option"

fun take_limit :: "('s, 'a) producer \<Rightarrow> nat \<Rightarrow> 's \<Rightarrow> 'a list \<times> 's" where
  "take_limit nxt 0 s = ([], s)"
| "take_limit nxt (Suc n) s =
     (case nxt s of
        None \<Rightarrow> ([], s)
      | Some (x, s') \<Rightarrow> (let (xs, s'') = take_limit nxt n s' in (x # xs, s'')))"

text \<open>The records a producer would yield from state \<open>s\<close> if it were run to its end.\<close>

fun produces :: "('s, 'a) producer \<Rightarrow> 's \<Rightarrow> 'a list \<Rightarrow> bool" where
  "produces nxt s [] = (nxt s = None)"
| "produces nxt s (x # xs) =
     (case nxt s of None \<Rightarrow> False | Some (y, s') \<Rightarrow> y = x \<and> produces nxt s' xs)"

text \<open>A producer that walks a list held in memory.\<close>

definition from_list :: "('a list, 'a) producer" where
  "from_list l = (case l of [] \<Rightarrow> None | x # r \<Rightarrow> Some (x, r))"

section \<open>A stand-in for Ray\<close>

text \<open>
  The end-to-end scenario of the spec (section 8): three prompts, and an engine that
  answers each prompt \<open>t\<close> with \<^verbatim>\<open><haiku about: t>\<close>. Datasets are lists of rows, a
  processor is the pair of its callbacks, and a callback that raises is a fault of the
  call that ran it. Every import resolves, and no call touches the configuration.
\<close>

definition cats :: row where
  "cats = [(''text'', PStr ''Tell me about cats'')]"

definition stub_rows :: "row list" where
  "stub_rows =
     [cats,
      [(''text'', PStr ''Tell me about dogs'')],
      [(''text'', PStr ''Tell me about birds'')]]"

definition stub_engine :: "row \<Rightarrow> row" where
  "stub_engine r =
     (case map_of r ''text'' of
        Some (PStr t) \<Rightarrow>
          r @ [(''prompt'', PStr t), (''generated_text'', PStr (''<haiku about: '' @ t @ ''>''))]
      | _ \<Rightarrow> r @ [(''prompt'', PNone), (''generated_text'', PStr [])])"

fun stub_process :: "callback \<times> callback \<Rightarrow> row list \<Rightarrow> string + row list" where
  "stub_process p [] = Inr []"
| "stub_process (pre, post) (r # rs) =
     (case pre r of
        Inl e \<Rightarrow> Inl ''preprocess raised''
      | Inr req \<Rightarrow>
          (case post (stub_engine r) of
             Inl e \<Rightarrow> Inl ''postprocess raised''
           | Inr out \<Rightarrow>
               (case stub_process (pre, post) rs of
                  Inl m \<Rightarrow> Inl m
                | Inr outs \<Rightarrow> Inr (out # outs))))"

definition stub_runtime :: "version \<Rightarrow> (row list, callback \<times> callback) runtime" where
  "stub_runtime v =
     \<lparr>importable = (\<lambda>m names. None),
      ray_version = Some v,
      read_text = (\<lambda>path. Inr stub_rows),
      schema = (\<lambda>d. Inr ''Column  Type  text  string''),
      count_rows = (\<lambda>d. Inr (length d)),
      build_llm_processor = (\<lambda>c pre post. (Inr (pre, post), c)),
      call_processor = (\<lambda>p d. (stub_process p d, (\<lambda>c. c))),
      take_rows = (\<lambda>d n. (Inr (fst (take_limit from_list n d)), (\<lambda>c. c)))\<rparr>"

text \<open>An installation of Ray 2.40.0, which has no module \<^verbatim>\<open>ray.data.llm\<close>.\<close>

definition old_ray :: "(row list, callback \<times> callback) runtime" where
  "old_ray =
     (stub_runtime (final [2, 40, 0]))
       \<lparr>importable :=
          (\<lambda>m names. if m = ''ray.data.llm'' then Some ''No module named ray.data.llm''
                      else None)\<rparr>"

text \<open>
  A runtime whose processor builder, as the one of Ray 2.44.1 does, gives the
  \<^verbatim>\<open>engine_kwargs\<close> of the configuration it is handed a default executor backend:
  \<^verbatim>\<open>engine_kwargs.setdefault("distributed_executor_backend", "mp")\<close>.
\<close>

definition set_backend :: "engine_config \<Rightarrow> engine_config" where
  "set_backend c =
     (case map_of (engine_kwargs c) ''distributed_executor_backend'' of
        None \<Rightarrow>
          c\<lparr>engine_kwargs :=
               engine_kwargs c @ [(''distributed_executor_backend'', PStr ''mp'')]\<rparr>
      | Some b \<Rightarrow> c)"

definition ray_2_44_1 :: "(row list, callback \<times> callback) runtime" where
  "ray_2_44_1 =
     (stub_runtime (final [2, 44, 1]))
       \<lparr>build_llm_processor := (\<lambda>c pre post. (Inr (pre, post), set_backend c))\<rparr>"

text \<open>A worker's heap that holds the first prompt's row, and nothing else, at address 0.\<close>

definition cats_heap :: heap where
  "cats_heap =
     \<lparr>objs = (\<lambda>a. ODict [(''text'', Val (PStr ''Tell me about cats''))]), fresh = 1\<rparr>"

text \<open>Twelve output rows held in memory, to peek into.\<close>

definition stub_outputs :: "row list" where
  "stub_outputs =
     map (\<lambda>i. [(''answer'', PInt i)]) [0, 1, 2, 3, 4, 5, 6, 7, 8, 9, 10, 11]"

section \<open>Auxiliary facts\<close>

lemma dict_kwargs_fresh:
  assumes "map_of d k = None"
  shows "dict_kwargs [(k, v)] d = Inr ((k, v) # d)"
proof -
  from assms have "find (\<lambda>x. x \<in> set (map fst [(k, v)])) (map fst d) = None"
    by (auto simp: find_None_iff map_of_eq_None_iff)
  then show ?thesis by (simp add: dict_kwargs_def)
qed

lemma dict_kwargs_dup:
  assumes "map_of d k \<noteq> None"
  shows "dict_kwargs [(k, v)] d = Inl (TypeError k)"
proof -
  from assms have "k \<in> set (map fst d)" by (simp add: map_of_eq_None_iff)
  then obtain k' where k': "find (\<lambda>x. x \<in> set (map fst [(k, v)])) (map fst d) = Some k'"
    by (cases "find (\<lambda>x. x \<in> set (map fst [(k, v)])) (map fst d)") (auto simp: find_None_iff)
  then have "k' = k" by (auto simp: find_Some_iff)
  with k' show ?thesis by (simp add: dict_kwargs_def)
qed

text \<open>Allocation leaves what an object graph stands for as it was.\<close>

lemma those_map_Some:
  "those (map f xs) = Some ys \<Longrightarrow> x \<in> set xs \<Longrightarrow> \<exists>y. f x = Some y"
  by (induction xs arbitrary: ys) (auto split: option.splits)

lemma those_map_cong:
  assumes "\<And>x. x \<in> set xs \<Longrightarrow> f x = g x"
  shows "those (map f xs) = those (map g xs)"
proof -
  from assms have "map f xs = map g xs" by (intro map_cong) auto
  then show ?thesis by (rule arg_cong)
qed

lemma reify_alloc:
  "reify n h c = Some v \<Longrightarrow> reify n (snd (alloc ob h)) c = Some v"
proof (induction n arbitrary: c v)
  case 0
  then show ?case by (cases c) auto
next
  case (Suc n)
  show ?case
  proof (cases c)
    case (Val w)
    with Suc.prems show ?thesis by simp
  next
    case (Ref a)
    with Suc.prems have a: "a < fresh h" by (auto split: if_splits)
    then have o: "objs (snd (alloc ob h)) a = objs h a" "a < fresh (snd (alloc ob h))"
      by (auto simp: alloc_def)
    show ?thesis
    proof (cases "objs h a")
      case (OList cs)
      with Suc.prems Ref a obtain vs where vs: "those (map (reify n h) cs) = Some vs"
        by auto
      have "those (map (reify n (snd (alloc ob h))) cs) = those (map (reify n h) cs)"
      proof (rule those_map_cong)
        fix x assume "x \<in> set cs"
        with those_map_Some [OF vs] obtain y where "reify n h x = Some y" by blast
        with Suc.IH show "reify n (snd (alloc ob h)) x = reify n h x" by simp
      qed
      with Suc.prems Ref a o OList show ?thesis by simp
    next
      case (ODict kvs)
      let ?f = "\<lambda>h (k, c). map_option (Pair k) (reify n h c)"
      from Suc.prems Ref a ODict obtain vs where
        vs: "those (map (?f h) kvs) = Some vs"
        by auto
      have "those (map (?f (snd (alloc ob h))) kvs) = those (map (?f h) kvs)"
      proof (rule those_map_cong)
        fix x assume x: "x \<in> set kvs"
        obtain k c' where kc: "x = (k, c')" by (cases x)
        from those_map_Some [OF vs x] kc obtain y where "reify n h c' = Some y" by auto
        with Suc.IH have "reify n (snd (alloc ob h)) c' = reify n h c'" by simp
        with kc show "?f (snd (alloc ob h)) x = ?f h x" by simp
      qed
      with Suc.prems Ref a o ODict show ?thesis by simp
    qed
  qed
qed

lemma reify_dict_lookup:
  "those (map (\<lambda>(k, c). map_option (Pair k) (reify n h c)) kvs) = Some r \<Longrightarrow>
   map_of r k = Option.bind (map_of kvs k) (reify n h)"
proof (induction kvs arbitrary: r)
  case Nil
  then show ?case by simp
next
  case (Cons kc kvs)
  obtain k' c where kc: "kc = (k', c)" by (cases kc)
  from Cons.prems kc obtain v r' where
    v: "reify n h c = Some v" and
    r': "those (map (\<lambda>(k, c). map_option (Pair k) (reify n h c)) kvs) = Some r'" and
    r: "r = (k', v) # r'"
    by (auto split: option.splits)
  from Cons.IH [OF r'] kc v r show ?case by simp
qed

lemma reify_row:
  assumes "reify n h (Ref a) = Some (PDict r)"
  shows "\<exists>m kvs. n = Suc m \<and> a < fresh h \<and> objs h a = ODict kvs \<and>
    (\<forall>k. map_of r k = Option.bind (map_of kvs k) (reify m h))"
proof -
  from assms obtain m where n: "n = Suc m" by (cases n) auto
  with assms have a: "a < fresh h" by (auto split: if_splits)
  from assms n a obtain kvs where kvs: "objs h a = ODict kvs"
    and t: "those (map (\<lambda>(k, c). map_option (Pair k) (reify m h c)) kvs) = Some r"
    by (cases "objs h a") auto
  from reify_dict_lookup [OF t] n a kvs show ?thesis by blast
qed

lemma preprocess_obj_frame:
  "b < fresh h \<Longrightarrow> objs (snd (preprocess_obj h a)) b = objs h b"
  by (simp add: preprocess_obj_def alloc_def Let_def split_def split: sum.split)

lemma preprocess_obj_result:
  assumes "reify n h (Ref a) = Some (PDict r)"
  shows "case map_of r ''text'' of
      None \<Rightarrow> fst (preprocess_obj h a) = Inl (KeyError ''text'')
    | Some t \<Rightarrow>
        \<exists>c. fst (preprocess_obj h a) = Inr c \<and>
          reify (n + 2) (snd (preprocess_obj h a)) c =
            Some (PDict
              [(''messages'',
                  PList [message ''system'' (PStr ''You are a bot that responds with haikus.''),
                         message ''user'' t]),
               (''sampling_params'',
                  PDict [(''temperature'', PFloat 0.3), (''max_tokens'', PInt 250)])])"
proof -
  from reify_row [OF assms] obtain m kvs where n: "n = Suc m" and a: "a < fresh h"
    and kvs: "objs h a = ODict kvs"
    and look: "\<And>k. map_of r k = Option.bind (map_of kvs k) (reify m h)"
    by blast
  let ?sys = "ODict [(''role'', Val (PStr ''system'')),
      (''content'', Val (PStr ''You are a bot that responds with haikus.''))]"
  let ?h1 = "snd (alloc ?sys h)"
  from a kvs have sub: "subscript ?h1 a ''text'' =
      (case map_of kvs ''text'' of None \<Rightarrow> Inl (KeyError ''text'') | Some c \<Rightarrow> Inr c)"
    by (simp add: subscript_def alloc_def)
  show ?thesis
  proof (cases "map_of kvs ''text''")
    case None
    with look [of "''text''"] sub show ?thesis
      by (simp add: preprocess_obj_def split_def)
  next
    case (Some tc)
    show ?thesis
    proof (cases "reify m h tc")
      case None
      from assms n a kvs obtain vs where
        "those (map (\<lambda>(k, c). map_option (Pair k) (reify m h c)) kvs) = Some vs"
        by auto
      from those_map_Some [OF this map_of_SomeD [OF Some]] None show ?thesis by auto
    next
      case t: (Some t)
      let ?usr = "ODict [(''role'', Val (PStr ''user'')), (''content'', tc)]"
      let ?h2 = "snd (alloc ?usr ?h1)"
      let ?msgs = "OList [Ref (fresh h), Ref (Suc (fresh h))]"
      let ?h3 = "snd (alloc ?msgs ?h2)"
      let ?sp = "ODict [(''temperature'', Val (PFloat 0.3)), (''max_tokens'', Val (PInt 250))]"
      let ?h4 = "snd (alloc ?sp ?h3)"
      let ?req = "ODict [(''messages'', Ref (Suc (Suc (fresh h)))),
          (''sampling_params'', Ref (Suc (Suc (Suc (fresh h)))))]"
      let ?h5 = "snd (alloc ?req ?h4)"
      have tc5: "reify m ?h5 tc = Some t"
        by (intro reify_alloc t)
      have res: "preprocess_obj h a = (Inr (Ref (Suc (Suc (Suc (Suc (fresh h)))))), ?h5)"
        using sub Some by (simp add: preprocess_obj_def alloc_def Let_def)
      have "reify (Suc (Suc (Suc m))) ?h5 (Ref (Suc (Suc (Suc (Suc (fresh h)))))) =
          Some (PDict
              [(''messages'',
                  PList [message ''system'' (PStr ''You are a bot that responds with haikus.''),
                         message ''user'' t]),
               (''sampling_params'',
                  PDict [(''temperature'', PFloat 0.3), (''max_tokens'', PInt 250)])])"
        using tc5 by (simp add: alloc_def message_def)
      with res n look [of "''text''"] Some t show ?thesis by simp
    qed
  qed
qed

lemma stages_append: "stages (xs @ ys) = stages xs @ stages ys"
  by (induction xs) (auto split: option.splits)

text \<open>The printing loop adds prints to the log and touches nothing else.\<close>

lemma print_loop_store:
  "print_loop rows s = (r, s') \<Longrightarrow>
   \<exists>es. s' = s\<lparr>events := events s @ es\<rparr> \<and> stages es = [] \<and>
     filter blocking es = [] \<and> filter is_construct es = [] \<and>
     (\<forall>c. Build_processor c \<notin> set es)"
proof (induction rows arbitrary: s)
  case Nil
  then show ?case by (intro exI [of _ "[]"]) auto
next
  case (Cons row rest)
  show ?case
  proof (cases "getitem row ''prompt''")
    case (Inl e)
    with Cons.prems show ?thesis by (intro exI [of _ "[]"]) auto
  next
    case p: (Inr prompt)
    show ?thesis
    proof (cases "getitem row ''generated_text''")
      case (Inl e)
      with p Cons.prems show ?thesis by (intro exI [of _ "[]"]) auto
    next
      case g: (Inr generated_text)
      let ?s = "emit (Print_generated_text generated_text) (emit (Print_prompt prompt) s)"
      from Cons.prems p g have "print_loop rest ?s = (r, s')" by simp
      from Cons.IH [OF this] obtain es where
        es: "s' = ?s\<lparr>events := events ?s @ es\<rparr>" "stages es = []"
          "filter blocking es = []" "filter is_construct es = []"
          "\<forall>c. Build_processor c \<notin> set es"
        by blast
      show ?thesis
        by (rule exI [of _ "[Print_prompt prompt, Print_generated_text generated_text] @ es"])
           (use es in \<open>simp add: emit_def\<close>)
    qed
  qed
qed

lemma print_loop_error:
  "print_loop rows s = (Some e, s') \<Longrightarrow> e = KeyError ''prompt'' \<or> e = KeyError ''generated_text''"
  by (induction rows arbitrary: s) (auto simp: getitem_def split: sum.splits option.splits)

lemma print_loop_config [simp]: "config (snd (print_loop rows s)) = config s"
  by (induction rows arbitrary: s) (auto simp: emit_def split: sum.splits)

lemma print_loop_events:
  "\<exists>es. events (snd (print_loop rows s)) = events s @ es \<and> stages es = [] \<and>
     filter blocking es = [] \<and> filter is_construct es = [] \<and>
     (\<forall>c. Build_processor c \<notin> set es)"
  using print_loop_store [of rows s "fst (print_loop rows s)" "snd (print_loop rows s)"]
  by auto

lemma print_loop_stages [simp]:
  "stages (events (snd (print_loop rows s))) = stages (events s)"
  using print_loop_events [of rows s] by (auto simp: stages_append)

lemma print_loop_blocking [simp]:
  "filter blocking (events (snd (print_loop rows s))) = filter blocking (events s)"
  using print_loop_events [of rows s] by auto

lemma print_loop_construct [simp]:
  "filter is_construct (events (snd (print_loop rows s))) = filter is_construct (events s)"
  using print_loop_events [of rows s] by auto

lemma print_loop_build [simp]:
  "Build_processor c \<in> set (events (snd (print_loop rows s))) \<longleftrightarrow>
   Build_processor c \<in> set (events s)"
  using print_loop_events [of rows s] by auto

lemma print_loop_fst:
  "fst (print_loop rows s) = Some e \<Longrightarrow> e = KeyError ''prompt'' \<or> e = KeyError ''generated_text''"
  using print_loop_error [of rows s e "snd (print_loop rows s)"] by (cases "print_loop rows s") auto



text \<open>
  A run unfolds into one case distinction per call: the continuation moves into the
  branches.
\<close>

lemma exec_and_then: "exec (c # cs) s = and_then (c s) (exec cs)"
  by (simp add: and_then_def)

lemma stores_and_then: "stores (c # cs) s = s # stores_after (c s) (stores cs)"
  by (simp add: stores_after_def)

lemma and_then_simps:
  "and_then (Some e, s) k = (Some e, s)"
  "and_then (None, s) k = k s"
  "and_then (case x of Inl a \<Rightarrow> f a | Inr b \<Rightarrow> g b) k =
     (case x of Inl a \<Rightarrow> and_then (f a) k | Inr b \<Rightarrow> and_then (g b) k)"
  "and_then (case y of None \<Rightarrow> u | Some a \<Rightarrow> w a) k =
     (case y of None \<Rightarrow> and_then u k | Some a \<Rightarrow> and_then (w a) k)"
  "and_then (case z of (a, b) \<Rightarrow> h a b) k = (case z of (a, b) \<Rightarrow> and_then (h a b) k)"
  "and_then (if b then p else q) k = (if b then and_then p k else and_then q k)"
  "and_then p (exec []) = p"
  by (auto simp: and_then_def split: sum.splits option.splits prod.splits)

lemma stores_after_simps:
  "stores_after (Some e, s) l = [s]"
  "stores_after (None, s) l = l s"
  "stores_after (case x of Inl a \<Rightarrow> f a | Inr b \<Rightarrow> g b) l =
     (case x of Inl a \<Rightarrow> stores_after (f a) l | Inr b \<Rightarrow> stores_after (g b) l)"
  "stores_after (case y of None \<Rightarrow> u | Some a \<Rightarrow> w a) l =
     (case y of None \<Rightarrow> stores_after u l | Some a \<Rightarrow> stores_after (w a) l)"
  "stores_after (case z of (a, b) \<Rightarrow> h a b) l = (case z of (a, b) \<Rightarrow> stores_after (h a b) l)"
  "stores_after (if b then p else q) l = (if b then stores_after p l else stores_after q l)"
  "stores_after p (stores []) = [snd p]"
  by (auto simp: stores_after_def split: sum.splits option.splits prod.splits)

lemma take_limit_prefix:
  "produces nxt s xs \<Longrightarrow> n \<le> length xs \<Longrightarrow>
   fst (take_limit nxt n s) = take n xs \<and>
   produces nxt (snd (take_limit nxt n s)) (drop n xs)"
proof (induction n arbitrary: s xs)
  case 0
  then show ?case by simp
next
  case (Suc n)
  then obtain x xs' where xs: "xs = x # xs'" by (cases xs) auto
  with Suc.prems obtain s' where s': "nxt s = Some (x, s')" "produces nxt s' xs'"
    by (auto split: option.splits)
  from Suc.prems xs have "n \<le> length xs'" by simp
  from Suc.IH [OF s'(2) this] show ?case
    using xs s' by (simp add: Let_def case_prod_unfold)
qed

lemma take_limit_numeral:
  "take_limit nxt (numeral k) s =
     (case nxt s of
        None \<Rightarrow> ([], s)
      | Some (x, s') \<Rightarrow>
          (let (xs, s'') = take_limit nxt (pred_numeral k) s' in (x # xs, s'')))"
  by (simp add: numeral_eq_Suc)

lemmas stmt_defs = Let_def import_from_def assert_version_def load_def print_schema_def
  count_size_def print_size_def configure_def build_def process_def peek_def
  print_outputs_def emit_def init_store_def

lemmas run_simps = run_def script_def exec_and_then and_then_simps stmt_defs

lemmas stores_simps = script_def stores_and_then stores_after_simps stmt_defs

lemmas version_defs = min_version_def final_def version_ge_def cmp_version_def
  strip_zeros_def pre_key_def post_key_def dev_key_def local_key_def then_cmp_def
  cmp_nat_def cmp_pre_def

lemmas stub_defs = stub_runtime_def stub_rows_def cats_def stub_engine_def from_list_def
  preprocess_def postprocess_def getitem_def dict_kwargs_def limit_def
  take_limit_numeral imports_resolve_def

text \<open>
  The order of versions at work: a release candidate and a development release of
  \<open>2.44.1\<close> are below it, a trailing zero changes nothing, and the assertion fires on
  the release candidate.
\<close>

lemma version_order_examples:
  "cmp_version ((final [2, 44, 1])\<lparr>pre_release := Some (Candidate, 1)\<rparr>) min_version = LT \<and>
   cmp_version ((final [2, 44, 1])\<lparr>dev_release := Some 0\<rparr>) min_version = LT \<and>
   cmp_version ((final [2, 44, 1])\<lparr>post_release := Some 0\<rparr>) min_version = GT \<and>
   cmp_version (final [2, 44, 1, 0]) min_version = EQ \<and>
   cmp_version ((final [3, 0, 0])\<lparr>dev_release := Some 0\<rparr>) min_version = GT"
  by (simp add: version_defs)

lemma assert_fires_on_release_candidate:
  "run (stub_runtime ((final [2, 44, 1])\<lparr>pre_release := Some (Candidate, 1)\<rparr>)) =
     (Some (AssertionError ''Ray version must be at least 2.44.1''), init_store)"
  by (simp add: run_simps stub_runtime_def version_defs del: exec.simps)

section \<open>The callbacks\<close>

text \<open>
  C1, as amended. A row that has a \<^verbatim>\<open>generated_text\<close> column and no \<^verbatim>\<open>answer\<close> column
  is always answered with a row: it holds every key of the input with the value it had,
  the key \<^verbatim>\<open>answer\<close> with the value of \<^verbatim>\<open>generated_text\<close>, and no other key.
\<close>

theorem postprocess_preserves_fields:
  assumes "map_of r ''generated_text'' = Some g" and "map_of r ''answer'' = None"
  shows "\<exists>out. postprocess r = Inr out \<and>
     (\<forall>k v. map_of r k = Some v \<longrightarrow> map_of out k = Some v) \<and>
     map_of out ''answer'' = Some g \<and>
     set (map fst out) = insert ''answer'' (set (map fst r))"
  using assms by (auto simp: postprocess_def getitem_def dict_kwargs_fresh)

text \<open>The row the stand-in engine hands back for the first prompt.\<close>

theorem postprocess_preserves_fields_witness:
  "map_of (stub_engine cats) ''generated_text'' = Some (PStr ''<haiku about: Tell me about cats>'') \<and>
   map_of (stub_engine cats) ''answer'' = None \<and>
   (\<exists>out. postprocess (stub_engine cats) = Inr out \<and>
      (\<forall>k v. map_of (stub_engine cats) k = Some v \<longrightarrow> map_of out k = Some v) \<and>
      map_of out ''answer'' = Some (PStr ''<haiku about: Tell me about cats>'') \<and>
      set (map fst out) = insert ''answer'' (set (map fst (stub_engine cats))))"
proof -
  have g: "map_of (stub_engine cats) ''generated_text'' =
      Some (PStr ''<haiku about: Tell me about cats>'')"
    by (simp add: stub_engine_def cats_def)
  have a: "map_of (stub_engine cats) ''answer'' = None"
    by (simp add: stub_engine_def cats_def)
  show ?thesis by (intro conjI g a postprocess_preserves_fields [OF g a])
qed

text \<open>
  C1 as first stated, for every row with a \<^verbatim>\<open>generated_text\<close> column, does not hold:
  when the row already has an \<^verbatim>\<open>answer\<close> column no row is returned at all, the merge
  raises.
\<close>

theorem postprocess_preserves_fields_counterexample:
  "map_of [(''generated_text'', PStr ''purr''), (''answer'', PStr ''meow'')] ''generated_text'' =
     Some (PStr ''purr'') \<and>
   postprocess [(''generated_text'', PStr ''purr''), (''answer'', PStr ''meow'')] =
     Inl (TypeError ''answer'')"
  by (simp add: postprocess_def getitem_def dict_kwargs_def)

text \<open>
  C2, as amended. For a row with a \<^verbatim>\<open>text\<close> column the request holds two messages, the
  system message with the haiku instruction and then one user message whose content is
  the row's text, and sampling parameters with temperature \<open>0.3\<close> and \<^verbatim>\<open>max_tokens\<close>
  \<open>250\<close>.
\<close>

theorem preprocess_request:
  assumes "map_of r ''text'' = Some t"
  shows "\<exists>req sp. preprocess r = Inr req \<and>
     map_of req ''messages'' =
       Some (PList [message ''system'' (PStr ''You are a bot that responds with haikus.''),
                    message ''user'' t]) \<and>
     map_of req ''sampling_params'' = Some (PDict sp) \<and>
     map_of sp ''temperature'' = Some (PFloat 0.3) \<and>
     map_of sp ''max_tokens'' = Some (PInt 250)"
  using assms by (simp add: preprocess_def getitem_def)

theorem preprocess_request_witness:
  "map_of cats ''text'' = Some (PStr ''Tell me about cats'') \<and>
   (\<exists>req sp. preprocess cats = Inr req \<and>
     map_of req ''messages'' =
       Some (PList [message ''system'' (PStr ''You are a bot that responds with haikus.''),
                    message ''user'' (PStr ''Tell me about cats'')]) \<and>
     map_of req ''sampling_params'' = Some (PDict sp) \<and>
     map_of sp ''temperature'' = Some (PFloat 0.3) \<and>
     map_of sp ''max_tokens'' = Some (PInt 250))"
proof -
  have t: "map_of cats ''text'' = Some (PStr ''Tell me about cats'')"
    by (simp add: cats_def)
  show ?thesis by (intro conjI t preprocess_request [OF t])
qed

text \<open>
  C2 as first stated asks for a single user message; the system message comes before
  it.
\<close>

theorem preprocess_request_counterexample:
  "preprocess [(''text'', PStr ''Tell me about cats'')] =
     Inr [(''messages'',
             PList [message ''system'' (PStr ''You are a bot that responds with haikus.''),
                    message ''user'' (PStr ''Tell me about cats'')]),
          (''sampling_params'',
             PDict [(''temperature'', PFloat 0.3), (''max_tokens'', PInt 250)])] \<and>
   PList [message ''system'' (PStr ''You are a bot that responds with haikus.''),
          message ''user'' (PStr ''Tell me about cats'')] \<noteq>
   PList [message ''user'' (PStr ''Tell me about cats'')]"
  by (simp add: preprocess_def getitem_def)

text \<open>
  C4. Two invocations of \<^verbatim>\<open>preprocess\<close>, in heaps \<open>h1\<close> and \<open>h2\<close> that need not share
  anything (or are one heap before and after the first invocation), on row objects
  that stand for the same record \<open>r\<close>: neither invocation writes to an object that was
  there before it, it only allocates; and either both raise the \<open>KeyError\<close> of the
  missing \<^verbatim>\<open>text\<close>, or both return a request, and the two requests stand for one and
  the same value: the one \<^const>\<open>preprocess\<close> computes from \<open>r\<close>, with the messages
  (system, then user with the text of \<open>r\<close>) and the sampling parameters of the source.
\<close>

theorem preprocess_pure:
  assumes "reify n h1 (Ref a1) = Some (PDict r)" and "reify n h2 (Ref a2) = Some (PDict r)"
  shows "(\<forall>b < fresh h1. objs (snd (preprocess_obj h1 a1)) b = objs h1 b) \<and>
    (\<forall>b < fresh h2. objs (snd (preprocess_obj h2 a2)) b = objs h2 b) \<and>
    (case map_of r ''text'' of
       None \<Rightarrow>
         fst (preprocess_obj h1 a1) = Inl (KeyError ''text'') \<and>
         fst (preprocess_obj h2 a2) = Inl (KeyError ''text'') \<and>
         preprocess r = Inl (KeyError ''text'')
     | Some t \<Rightarrow>
         \<exists>c1 c2 req.
           fst (preprocess_obj h1 a1) = Inr c1 \<and> fst (preprocess_obj h2 a2) = Inr c2 \<and>
           reify (n + 2) (snd (preprocess_obj h1 a1)) c1 = Some (PDict req) \<and>
           reify (n + 2) (snd (preprocess_obj h2 a2)) c2 = Some (PDict req) \<and>
           preprocess r = Inr req \<and>
           map_of req ''messages'' =
             Some (PList [message ''system'' (PStr ''You are a bot that responds with haikus.''),
                          message ''user'' t]) \<and>
           map_of req ''sampling_params'' =
             Some (PDict [(''temperature'', PFloat 0.3), (''max_tokens'', PInt 250)]))"
proof (intro conjI)
  show "\<forall>b < fresh h1. objs (snd (preprocess_obj h1 a1)) b = objs h1 b"
    by (simp add: preprocess_obj_frame)
  show "\<forall>b < fresh h2. objs (snd (preprocess_obj h2 a2)) b = objs h2 b"
    by (simp add: preprocess_obj_frame)
  show "case map_of r ''text'' of
       None \<Rightarrow>
         fst (preprocess_obj h1 a1) = Inl (KeyError ''text'') \<and>
         fst (preprocess_obj h2 a2) = Inl (KeyError ''text'') \<and>
         preprocess r = Inl (KeyError ''text'')
     | Some t \<Rightarrow>
         \<exists>c1 c2 req.
           fst (preprocess_obj h1 a1) = Inr c1 \<and> fst (preprocess_obj h2 a2) = Inr c2 \<and>
           reify (n + 2) (snd (preprocess_obj h1 a1)) c1 = Some (PDict req) \<and>
           reify (n + 2) (snd (preprocess_obj h2 a2)) c2 = Some (PDict req) \<and>
           preprocess r = Inr req \<and>
           map_of req ''messages'' =
             Some (PList [message ''system'' (PStr ''You are a bot that responds with haikus.''),
                          message ''user'' t]) \<and>
           map_of req ''sampling_params'' =
             Some (PDict [(''temperature'', PFloat 0.3), (''max_tokens'', PInt 250)])"
    using preprocess_obj_result [OF assms(1)] preprocess_obj_result [OF assms(2)]
    by (cases "map_of r ''text''") (auto simp: preprocess_def getitem_def)
qed

text \<open>
  The row of the first prompt, preprocessed twice in the same worker: the second
  invocation runs in the heap the first one left.
\<close>

theorem preprocess_pure_witness:
  "reify 1 cats_heap (Ref 0) = Some (PDict cats) \<and>
   reify 1 (snd (preprocess_obj cats_heap 0)) (Ref 0) = Some (PDict cats) \<and>
   map_of cats ''text'' = Some (PStr ''Tell me about cats'') \<and>
   (\<exists>c1 c2 req.
      fst (preprocess_obj cats_heap 0) = Inr c1 \<and>
      fst (preprocess_obj (snd (preprocess_obj cats_heap 0)) 0) = Inr c2 \<and>
      reify (1 + 2) (snd (preprocess_obj cats_heap 0)) c1 = Some (PDict req) \<and>
      reify (1 + 2) (snd (preprocess_obj (snd (preprocess_obj cats_heap 0)) 0)) c2 =
        Some (PDict req) \<and>
      preprocess cats = Inr req \<and>
      map_of req ''messages'' =
        Some (PList [message ''system'' (PStr ''You are a bot that responds with haikus.''),
                     message ''user'' (PStr ''Tell me about cats'')]) \<and>
      map_of req ''sampling_params'' =
        Some (PDict [(''temperature'', PFloat 0.3), (''max_tokens'', PInt 250)]))"
proof -
  have r1: "reify 1 cats_heap (Ref 0) = Some (PDict cats)"
    by (simp add: cats_heap_def cats_def)
  have r2: "reify 1 (snd (preprocess_obj cats_heap 0)) (Ref 0) = Some (PDict cats)"
    by (simp add: cats_heap_def cats_def preprocess_obj_def alloc_def subscript_def)
  have t: "map_of cats ''text'' = Some (PStr ''Tell me about cats'')"
    by (simp add: cats_def)
  from preprocess_pure [OF r1 r2, THEN conjunct2, THEN conjunct2]
  have "\<exists>c1 c2 req.
      fst (preprocess_obj cats_heap 0) = Inr c1 \<and>
      fst (preprocess_obj (snd (preprocess_obj cats_heap 0)) 0) = Inr c2 \<and>
      reify (1 + 2) (snd (preprocess_obj cats_heap 0)) c1 = Some (PDict req) \<and>
      reify (1 + 2) (snd (preprocess_obj (snd (preprocess_obj cats_heap 0)) 0)) c2 =
        Some (PDict req) \<and>
      preprocess cats = Inr req \<and>
      map_of req ''messages'' =
        Some (PList [message ''system'' (PStr ''You are a bot that responds with haikus.''),
                     message ''user'' (PStr ''Tell me about cats'')]) \<and>
      map_of req ''sampling_params'' =
        Some (PDict [(''temperature'', PFloat 0.3), (''max_tokens'', PInt 250)])"
    by (simp only: t option.case)
  with r1 r2 t show ?thesis by (intro conjI)
qed

text \<open>
  C5, as amended. A row that has an \<^verbatim>\<open>answer\<close> column is never merged: \<^verbatim>\<open>postprocess\<close>
  raises, the \<open>TypeError\<close> of the duplicate keyword when the row has a
  \<^verbatim>\<open>generated_text\<close> column and the \<open>KeyError\<close> of that lookup, which comes first, when
  it has none; and \<^verbatim>\<open>postprocess\<close> returns a row only for an input without an
  \<^verbatim>\<open>answer\<close> column.
\<close>

theorem postprocess_answer_raises:
  "(map_of r ''answer'' \<noteq> None \<longrightarrow>
      postprocess r = Inl (if map_of r ''generated_text'' = None
                           then KeyError ''generated_text'' else TypeError ''answer'')) \<and>
   (\<forall>out. postprocess r = Inr out \<longrightarrow> map_of r ''answer'' = None)"
  by (cases "map_of r ''answer''"; cases "map_of r ''generated_text''")
     (auto simp: postprocess_def getitem_def dict_kwargs_dup dict_kwargs_fresh)

theorem postprocess_answer_raises_witness:
  "map_of [(''text'', PStr ''Tell me about dogs''), (''generated_text'', PStr ''woof''),
           (''answer'', PStr ''bark'')] ''answer'' \<noteq> None \<and>
   postprocess [(''text'', PStr ''Tell me about dogs''), (''generated_text'', PStr ''woof''),
                (''answer'', PStr ''bark'')] = Inl (TypeError ''answer'') \<and>
   postprocess [(''text'', PStr ''Tell me about dogs''), (''generated_text'', PStr ''woof'')] =
     Inr [(''answer'', PStr ''woof''), (''text'', PStr ''Tell me about dogs''),
          (''generated_text'', PStr ''woof'')] \<and>
   map_of [(''text'', PStr ''Tell me about dogs''), (''generated_text'', PStr ''woof'')]
     ''answer'' = None"
  using
    postprocess_answer_raises
      [of "[(''text'', PStr ''Tell me about dogs''), (''generated_text'', PStr ''woof''),
            (''answer'', PStr ''bark'')]"]
    postprocess_answer_raises
      [of "[(''text'', PStr ''Tell me about dogs''), (''generated_text'', PStr ''woof'')]"]
  by (simp add: postprocess_def getitem_def dict_kwargs_def)

text \<open>
  C5 as first stated names the duplicate keyword as the error for every row with an
  \<^verbatim>\<open>answer\<close> column; without a \<^verbatim>\<open>generated_text\<close> column the error is the
  \<open>KeyError\<close>.
\<close>

theorem postprocess_answer_raises_counterexample:
  "map_of [(''text'', PStr ''Tell me about birds''), (''answer'', PStr ''tweet'')] ''answer'' =
     Some (PStr ''tweet'') \<and>
   postprocess [(''text'', PStr ''Tell me about birds''), (''answer'', PStr ''tweet'')] =
     Inl (KeyError ''generated_text'') \<and>
   KeyError ''generated_text'' \<noteq> TypeError ''answer''"
  by (simp add: postprocess_def getitem_def)

text \<open>
  C9. A row without a \<^verbatim>\<open>text\<close> column gets no request: \<^verbatim>\<open>preprocess\<close> raises the
  \<open>KeyError\<close> of the lookup.
\<close>

theorem preprocess_missing_text:
  assumes "map_of r ''text'' = None"
  shows "preprocess r = Inl (KeyError ''text'')"
  using assms by (simp add: preprocess_def getitem_def)

theorem preprocess_missing_text_witness:
  "map_of [(''prompt'', PStr ''Tell me about cats'')] ''text'' = None \<and>
   preprocess [(''prompt'', PStr ''Tell me about cats'')] = Inl (KeyError ''text'')"
proof -
  have t: "map_of [(''prompt'', PStr ''Tell me about cats'')] ''text'' = None" by simp
  show ?thesis by (intro conjI t preprocess_missing_text [OF t])
qed

text \<open>
  C10. For a row with a \<^verbatim>\<open>generated_text\<close> column and no \<^verbatim>\<open>answer\<close> column the output
  row holds both keys, with the same value: the generated text is copied, not moved.
\<close>

theorem postprocess_duplicates_generated_text:
  assumes "map_of r ''generated_text'' = Some g" and "map_of r ''answer'' = None"
  shows "\<exists>out. postprocess r = Inr out \<and> map_of out ''generated_text'' = Some g \<and>
     map_of out ''answer'' = Some g"
  using assms by (simp add: postprocess_def getitem_def dict_kwargs_fresh)

theorem postprocess_duplicates_generated_text_witness:
  "map_of [(''prompt'', PStr ''dogs''), (''generated_text'', PStr ''woof'')] ''generated_text'' =
     Some (PStr ''woof'') \<and>
   map_of [(''prompt'', PStr ''dogs''), (''generated_text'', PStr ''woof'')] ''answer'' = None \<and>
   postprocess [(''prompt'', PStr ''dogs''), (''generated_text'', PStr ''woof'')] =
     Inr [(''answer'', PStr ''woof''), (''prompt'', PStr ''dogs''),
          (''generated_text'', PStr ''woof'')]"
  using postprocess_duplicates_generated_text
    [of "[(''prompt'', PStr ''dogs''), (''generated_text'', PStr ''woof'')]" "PStr ''woof''"]
  by (simp add: postprocess_def getitem_def dict_kwargs_def)

section \<open>The run of the script\<close>

text \<open>
  C3, as amended. When the three imports resolve and the version of Ray parses and is
  below \<open>2.44.1\<close>, the run ends in the assertion error with its message, in the store
  it started from: nothing was called, nothing bound. The assertion is the only check
  of the script's own: whatever else ends a run is an import that fails, a version
  string that does not parse, a fault raised inside a call into Ray, or a column
  missing from a row the printing loop reads. And a run that ends in the assertion
  error, an import error or an invalid version has done nothing before.
\<close>

theorem version_precondition:
  "(imports_resolve rt \<and> ray_version rt = Some v \<and> cmp_version v min_version = LT \<longrightarrow>
      run rt = (Some (AssertionError ''Ray version must be at least 2.44.1''), init_store) \<and>
      events (snd (run rt)) = []) \<and>
   (\<forall>e. fst (run rt) = Some e \<longrightarrow>
      (e = AssertionError ''Ray version must be at least 2.44.1'' \<and>
         (\<exists>w. ray_version rt = Some w \<and> cmp_version w min_version = LT)) \<or>
      (\<exists>m. e = ImportError m) \<or> e = InvalidVersion \<or>
      (\<exists>m. e = External m) \<or> e = KeyError ''prompt'' \<or> e = KeyError ''generated_text'') \<and>
   (\<forall>e. fst (run rt) = Some e \<and>
      (e = AssertionError ''Ray version must be at least 2.44.1'' \<or>
       (\<exists>m. e = ImportError m) \<or> e = InvalidVersion) \<longrightarrow>
      snd (run rt) = init_store)"
proof (intro conjI)
  show "imports_resolve rt \<and> ray_version rt = Some v \<and> cmp_version v min_version = LT \<longrightarrow>
      run rt = (Some (AssertionError ''Ray version must be at least 2.44.1''), init_store) \<and>
      events (snd (run rt)) = []"
    by (simp add: run_simps imports_resolve_def version_ge_def del: exec.simps)
  show "\<forall>e. fst (run rt) = Some e \<longrightarrow>
      (e = AssertionError ''Ray version must be at least 2.44.1'' \<and>
         (\<exists>w. ray_version rt = Some w \<and> cmp_version w min_version = LT)) \<or>
      (\<exists>m. e = ImportError m) \<or> e = InvalidVersion \<or>
      (\<exists>m. e = External m) \<or> e = KeyError ''prompt'' \<or> e = KeyError ''generated_text''"
    by (simp add: run_simps version_ge_def del: exec.simps
        split: sum.split option.split prod.split)
       (auto dest: print_loop_fst)
  show "\<forall>e. fst (run rt) = Some e \<and>
      (e = AssertionError ''Ray version must be at least 2.44.1'' \<or>
       (\<exists>m. e = ImportError m) \<or> e = InvalidVersion) \<longrightarrow>
      snd (run rt) = init_store"
    by (simp add: run_simps version_ge_def del: exec.simps
        split: sum.split option.split prod.split)
       (auto dest: print_loop_fst)
qed

text \<open>Ray 2.44.0, which has the module \<^verbatim>\<open>ray.data.llm\<close>.\<close>

theorem version_precondition_witness:
  "imports_resolve (stub_runtime (final [2, 44, 0])) \<and>
   ray_version (stub_runtime (final [2, 44, 0])) = Some (final [2, 44, 0]) \<and>
   cmp_version (final [2, 44, 0]) min_version = LT \<and>
   run (stub_runtime (final [2, 44, 0])) =
     (Some (AssertionError ''Ray version must be at least 2.44.1''), init_store) \<and>
   events (snd (run (stub_runtime (final [2, 44, 0])))) = [] \<and>
   fst (run (stub_runtime (final [2, 44, 0]))) =
     Some (AssertionError ''Ray version must be at least 2.44.1'') \<and>
   snd (run (stub_runtime (final [2, 44, 0]))) = init_store"
proof -
  have i: "imports_resolve (stub_runtime (final [2, 44, 0]))"
    by (simp add: imports_resolve_def stub_runtime_def)
  have r: "ray_version (stub_runtime (final [2, 44, 0])) = Some (final [2, 44, 0])"
    by (simp add: stub_runtime_def)
  have v: "cmp_version (final [2, 44, 0]) min_version = LT"
    by (simp add: version_defs)
  from version_precondition [of "stub_runtime (final [2, 44, 0])" "final [2, 44, 0]"] i r v
  show ?thesis by (simp add: init_store_def)
qed

text \<open>
  C3 as first stated promises the message for every lower version. The import of
  \<^verbatim>\<open>ray.data.llm\<close> on line 26 runs before the assertion of line 28: on Ray 2.40.0 the
  run ends there, with the import error.
\<close>

theorem version_precondition_counterexample:
  "ray_version old_ray = Some (final [2, 40, 0]) \<and>
   cmp_version (final [2, 40, 0]) min_version = LT \<and>
   run old_ray = (Some (ImportError ''No module named ray.data.llm''), init_store) \<and>
   ImportError ''No module named ray.data.llm'' \<noteq>
     AssertionError ''Ray version must be at least 2.44.1''"
  by (simp add: old_ray_def stub_runtime_def version_defs run_simps del: exec.simps)

text \<open>
  C7, as amended. The configuration is built once, before any processing: every store
  of a run either has \<^verbatim>\<open>config\<close> unbound, no construction logged and no stage beyond
  loading and counting, or has \<^verbatim>\<open>config\<close> bound with exactly one construction logged,
  that of the value of the source, and holds that very value as long as the processor
  has not been built. The processor is built from that value, whose concurrency (1)
  and batch size (64) are positive. No statement of the script writes to the object:
  when the calls into Ray that hold it leave it alone, \<^verbatim>\<open>config\<close> is unbound up to its
  assignment and holds that one value in every store after it.
\<close>

theorem engine_config_immutable:
  "(\<forall>s \<in> set (stores (script rt) init_store).
      (config s = None \<and> filter is_construct (events s) = [] \<and>
         prefix (stages (events s)) [Load, Count_rows]) \<or>
      (config s \<noteq> None \<and> filter is_construct (events s) = [Construct_config the_config] \<and>
         ((\<forall>c. Build_processor c \<notin> set (events s)) \<longrightarrow> config s = Some the_config))) \<and>
   (\<forall>c. Build_processor c \<in> set (events (snd (run rt))) \<longrightarrow> c = the_config) \<and>
   (calls_keep_config rt \<longrightarrow>
      prefix (map config (stores (script rt) init_store))
        [None, None, None, None, None, None, None, None, None,
         Some the_config, Some the_config, Some the_config, Some the_config,
         Some the_config]) \<and>
   concurrency the_config = 1 \<and> batch_size the_config = 64 \<and>
   0 < concurrency the_config \<and> 0 < batch_size the_config"
proof (intro conjI)
  show "\<forall>s \<in> set (stores (script rt) init_store).
      (config s = None \<and> filter is_construct (events s) = [] \<and>
         prefix (stages (events s)) [Load, Count_rows]) \<or>
      (config s \<noteq> None \<and> filter is_construct (events s) = [Construct_config the_config] \<and>
         ((\<forall>c. Build_processor c \<notin> set (events s)) \<longrightarrow> config s = Some the_config))"
  proof -
    define P :: "('a, 'b) store \<Rightarrow> bool" where
      "P = (\<lambda>s. (config s = None \<and> filter is_construct (events s) = [] \<and>
         prefix (stages (events s)) [Load, Count_rows]) \<or>
      (config s \<noteq> None \<and> filter is_construct (events s) = [Construct_config the_config] \<and>
         ((\<forall>c. Build_processor c \<notin> set (events s)) \<longrightarrow> config s = Some the_config)))"
    have "list_all P (stores (script rt) init_store)"
      apply (simp add: stores_simps del: stores.simps
          split: sum.split option.split prod.split)
      apply (simp add: P_def stages_append)
      done
    then show ?thesis by (simp add: list_all_iff P_def)
  qed
  show "\<forall>c. Build_processor c \<in> set (events (snd (run rt))) \<longrightarrow> c = the_config"
    by (simp add: run_simps del: exec.simps split: sum.split option.split prod.split)
  show "calls_keep_config rt \<longrightarrow>
      prefix (map config (stores (script rt) init_store))
        [None, None, None, None, None, None, None, None, None,
         Some the_config, Some the_config, Some the_config, Some the_config,
         Some the_config]"
  proof
    assume k: "calls_keep_config rt"
    have b: "c = the_config"
      if "build_llm_processor rt the_config preprocess postprocess = (r, c)" for r c
      using k that by (auto simp: calls_keep_config_def)
    have cp: "f = (\<lambda>c. c)" if "call_processor rt p d = (r, f)" for p d r f
    proof
      fix c
      from k have "snd (call_processor rt p d) c = c" by (simp add: calls_keep_config_def)
      with that show "f c = c" by simp
    qed
    have tk: "f = (\<lambda>c. c)" if "take_rows rt d n = (r, f)" for d n r f
    proof
      fix c
      from k have "snd (take_rows rt d n) c = c" by (simp add: calls_keep_config_def)
      with that show "f c = c" by simp
    qed
    show "prefix (map config (stores (script rt) init_store))
        [None, None, None, None, None, None, None, None, None,
         Some the_config, Some the_config, Some the_config, Some the_config,
         Some the_config]"
      by (simp add: stores_simps del: stores.simps split: sum.split option.split prod.split)
         (auto dest!: b cp tk)
  qed
qed (simp_all add: the_config_def)

theorem engine_config_immutable_witness:
  "calls_keep_config (stub_runtime (final [2, 44, 1])) \<and>
   snd (run (stub_runtime (final [2, 44, 1]))) \<in>
     set (stores (script (stub_runtime (final [2, 44, 1]))) init_store) \<and>
   config (snd (run (stub_runtime (final [2, 44, 1])))) = Some the_config \<and>
   filter is_construct (events (snd (run (stub_runtime (final [2, 44, 1]))))) =
     [Construct_config the_config] \<and>
   map config (stores (script (stub_runtime (final [2, 44, 1]))) init_store) =
     [None, None, None, None, None, None, None, None, None,
      Some the_config, Some the_config, Some the_config, Some the_config, Some the_config] \<and>
   Build_processor the_config \<in> set (events (snd (run (stub_runtime (final [2, 44, 1])))))"
  using engine_config_immutable [of "stub_runtime (final [2, 44, 1])"]
  by (simp add: calls_keep_config_def run_simps stores_simps stub_defs version_defs
      del: exec.simps stores.simps)

text \<open>
  C7 as first stated, never mutated after construction, does not hold of a run in
  which the processor builder writes to the object it is handed: the run completes,
  and \<^verbatim>\<open>config.engine_kwargs\<close> has a key the script did not give it.
\<close>

theorem engine_config_immutable_counterexample:
  "fst (run ray_2_44_1) = None \<and>
   map_of (engine_kwargs the_config) ''distributed_executor_backend'' = None \<and>
   map_option (\<lambda>c. map_of (engine_kwargs c) ''distributed_executor_backend'')
     (config (snd (run ray_2_44_1))) = Some (Some (PStr ''mp'')) \<and>
   config (snd (run ray_2_44_1)) \<noteq> Some the_config"
  by (simp add: ray_2_44_1_def set_backend_def the_config_def run_simps stub_defs version_defs
      del: exec.simps)



section \<open>The bounded peek\<close>

text \<open>
  C6. From a lazy sequence that would yield more than ten records, the peek with the
  script's limit returns exactly the first ten, and leaves the producer where the
  remaining records are still to be computed. \<^const>\<open>take_limit\<close> is a total function
  into lists: there is no error for it to raise.
\<close>

theorem bounded_peek:
  assumes "produces nxt s xs" and "limit < length xs"
  shows "fst (take_limit nxt limit s) = take limit xs \<and>
   length (fst (take_limit nxt limit s)) = 10 \<and>
   produces nxt (snd (take_limit nxt limit s)) (drop limit xs)"
  using assms take_limit_prefix [of nxt s xs limit] by (simp add: limit_def)

theorem bounded_peek_witness:
  "produces from_list stub_outputs stub_outputs \<and> limit < length stub_outputs \<and>
   fst (take_limit from_list limit stub_outputs) =
     map (\<lambda>i. [(''answer'', PInt i)]) [0, 1, 2, 3, 4, 5, 6, 7, 8, 9] \<and>
   length (fst (take_limit from_list limit stub_outputs)) = 10 \<and>
   produces from_list (snd (take_limit from_list limit stub_outputs))
     [[(''answer'', PInt 10)], [(''answer'', PInt 11)]]"
proof -
  have p: "produces from_list stub_outputs stub_outputs"
    by (simp add: stub_outputs_def from_list_def)
  have l: "limit < length stub_outputs"
    by (simp add: stub_outputs_def limit_def)
  from bounded_peek [OF p l] p l show ?thesis
    by (simp add: stub_outputs_def limit_def)
qed

end
